theory Spec2Isabelle
  imports Main
begin

section \<open>The session supervisor of web/server.js\<close>

text \<open>
  The server keeps two global variables: \<open>bots\<close>, a plain JavaScript object used as
  the registry of running bots (account name to bot object), and \<open>configsArray\<close>, the
  list of account configurations. Bot objects are shared by reference between the
  registry and the event handlers that \<open>startBot\<close> registers on them, so the model
  keeps every bot that was ever built in a store \<open>objs\<close> and lets the registry hold
  handles (indices) into it. Everything the server does to the outside (a call of
  \<open>writeLog\<close>, an \<open>io.emit\<close>, a method call on the client, a file operation) is
  appended to the trace \<open>out\<close>.
\<close>

subsection \<open>Data\<close>

type_synonym steamid = nat

datatype game = GameId nat | GameName string

text \<open>An entry of \<open>configsArray\<close> (config/accounts.json).\<close>

record account =
  username :: string
  password :: string
  sharedSecret :: string
  enableStatus :: bool
  gamesAndStatus :: "game list"
  replyMessage :: string
  receiveMessages :: bool
  saveMessages :: bool

text \<open>
  A request body of add-account and edit-account: any field may be missing
  (\<open>undefined\<close> is \<open>None\<close>).
\<close>

record account_data =
  d_username :: "string option"
  d_password :: "string option"
  d_sharedSecret :: "string option"
  d_enableStatus :: "bool option"
  d_gamesAndStatus :: "game list option"
  d_replyMessage :: "string option"
  d_receiveMessages :: "bool option"
  d_saveMessages :: "bool option"

text \<open>
  The fields of a bot object that server.js reads or writes. The object itself is
  built by \<open>botFactory.buildBot\<close>; \<open>loginKeyPath\<close> is \<open>None\<close> when the property
  is undefined.
\<close>

record bot =
  bot_username :: string
  loginKeyPath :: "string option"
  bot_receiveMessages :: bool
  bot_saveMessages :: bool
  autoMessage :: string
  messageReceived :: "steamid set"
  waitingForGuard :: bool

text \<open>
  A bot together with the \<open>config\<close> that the handlers registered by \<open>startBot\<close>
  close over.
\<close>

record session =
  config :: account
  bot :: bot

text \<open>The error object of the client's error event.\<close>

record err =
  err_name :: string
  message :: string
  eresult :: "nat option"

datatype effect =
    WriteLog string
  | EmitStatusUpdate
  | EmitSteamGuardRequest string
  | DoLogin nat
  | LogOff nat
  | ChatMessage nat steamid string
  | SubmitSteamGuardCode nat string
  | Unlink string
  | AppendMessage string steamid string
  | SaveConfig "account list"

text \<open>A row of the answer of GET /api/accounts.\<close>

record account_status =
  s_username :: string
  s_enableStatus :: bool
  s_gamesAndStatus :: "game list"
  s_replyMessage :: string
  s_receiveMessages :: bool
  s_saveMessages :: bool
  running :: bool

datatype response = Json nat string | AccountList "account_status list"

record state =
  bots :: "string \<rightharpoonup> nat"
  objs :: "session list"
  configsArray :: "account list"
  out :: "effect list"

definition init :: state where
  "init = \<lparr>bots = Map.empty, objs = [], configsArray = [], out = []\<rparr>"

subsection \<open>Property lookup on the registry object\<close>

text \<open>
  \<open>bots\<close> is created as \<open>{}\<close>, so \<open>bots[name]\<close> finds an own property first and
  otherwise what every object inherits from \<open>Object.prototype\<close>; each inherited
  value is a function or an object and therefore truthy. \<open>delete\<close> removes own
  properties only.
\<close>

definition object_prototype_keys :: "string list" where
  "object_prototype_keys =
     [''constructor'', ''__defineGetter__'', ''__defineSetter__'', ''hasOwnProperty'',
      ''__lookupGetter__'', ''__lookupSetter__'', ''isPrototypeOf'',
      ''propertyIsEnumerable'', ''toString'', ''valueOf'', ''__proto__'',
      ''toLocaleString'']"

datatype lookup = Undefined | Inherited | Bot nat

definition bots_get :: "state \<Rightarrow> string \<Rightarrow> lookup" where
  "bots_get s name =
     (case bots s name of
        Some h \<Rightarrow> Bot h
      | None \<Rightarrow> if name \<in> set object_prototype_keys then Inherited else Undefined)"

definition truthy :: "lookup \<Rightarrow> bool" where
  "truthy l = (l \<noteq> Undefined)"

definition bots_delete :: "string \<Rightarrow> state \<Rightarrow> state" where
  "bots_delete name s = s\<lparr>bots := (bots s)(name := None)\<rparr>"

subsection \<open>Strings\<close>

definition tag :: "string \<Rightarrow> string" where
  "tag name = ''['' @ name @ ''] ''"

text \<open>\<open>String.prototype.includes\<close>: \<open>t\<close> occurs in \<open>s\<close> as a substring.\<close>

fun str_includes :: "string \<Rightarrow> string \<Rightarrow> bool" where
  "str_includes [] t = (t = [])"
| "str_includes (c # cs) t = (take (length t) (c # cs) = t \<or> str_includes cs t)"

definition digit :: "nat \<Rightarrow> char" where
  "digit d = char_of (48 + d)"

function show_nat :: "nat \<Rightarrow> string" where
  "show_nat n = (if n < 10 then [digit n] else show_nat (n div 10) @ [digit (n mod 10)])"
  by pat_completeness auto
termination
  by (relation "measure id") auto

text \<open>\<open>Error.prototype.toString\<close>, which the template literal applies to \<open>err\<close>.\<close>

definition err_toString :: "err \<Rightarrow> string" where
  "err_toString e =
     (if err_name e = [] then message e
      else if message e = [] then err_name e
      else err_name e @ '': '' @ message e)"

text \<open>\<open>SteamUser.EResult.InvalidPassword\<close> of the steam-user library.\<close>

definition InvalidPassword :: nat where
  "InvalidPassword = 5"

subsection \<open>Output\<close>

definition effect :: "effect \<Rightarrow> state \<Rightarrow> state" where
  "effect e s = s\<lparr>out := out s @ [e]\<rparr>"

text \<open>
  \<open>writeLog\<close> prefixes the time of day and appends the line to the log file and to
  the observers; the model records the message it was called with.
\<close>

definition writeLog :: "string \<Rightarrow> state \<Rightarrow> state" where
  "writeLog msg s = effect (WriteLog msg) s"

definition saveConfig :: "state \<Rightarrow> state" where
  "saveConfig s = effect (SaveConfig (configsArray s)) s"

subsection \<open>startBot and the handlers it registers\<close>

text \<open>
  \<open>startBot\<close> takes the factory as a parameter: \<open>botFactory.buildBot\<close> lives in
  src/hourBooster. The handlers below are the closures of \<open>startBot\<close>; \<open>h\<close> is the
  handle of the bot they were registered on, and \<open>config\<close> and \<open>bot\<close> are read
  from its store entry. The factory and the client's methods \<open>doLogin\<close>,
  \<open>chatMessage\<close> and \<open>submitSteamGuardCode\<close> are taken to return normally; a call is
  recorded in the trace. \<open>logOff\<close> may throw, since \<open>stopBot\<close> catches what it throws.
\<close>

definition startBot :: "(account \<Rightarrow> bot) \<Rightarrow> account \<Rightarrow> state \<Rightarrow> state" where
  "startBot factory cfg s =
     (if truthy (bots_get s (username cfg))
      then writeLog (tag (username cfg) @ ''Bot is already running.'') s
      else
        let s1 = writeLog (tag (username cfg) @ ''Starting bot...'') s;
            h = length (objs s1);
            s2 = s1\<lparr>objs := objs s1 @ [\<lparr>config = cfg, bot = factory cfg\<rparr>]\<rparr>;
            s3 = effect (DoLogin h) s2;
            s4 = s3\<lparr>bots := (bots s3)(username cfg \<mapsto> h)\<rparr>
        in effect EmitStatusUpdate s4)"

definition on_loggedOn :: "nat \<Rightarrow> state \<Rightarrow> state" where
  "on_loggedOn h s =
     (let name = username (config (objs s ! h));
          s1 = (if \<not> truthy (bots_get s name) then s\<lparr>bots := (bots s)(name \<mapsto> h)\<rparr> else s);
          s2 = writeLog (tag name @ ''Logged in successfully. Playing games'') s1
      in effect EmitStatusUpdate s2)"

text \<open>
  \<open>unlink_exn\<close> is how \<open>fs.unlink\<close> ends when it is called: \<open>None\<close> when the
  promise resolves, \<open>Some m\<close> when it rejects with message \<open>m\<close>. The rejection is
  handled after the handler has returned, so its log line comes last.
\<close>

definition key_path :: "bot \<Rightarrow> string option" where
  "key_path b = (case loginKeyPath b of None \<Rightarrow> None | Some p \<Rightarrow> if p = [] then None else Some p)"

definition on_error :: "nat \<Rightarrow> err \<Rightarrow> string option \<Rightarrow> state \<Rightarrow> state" where
  "on_error h e unlink_exn s =
     (let name = username (config (objs s ! h));
          b = bot (objs s ! h);
          isLoggedInElsewhere = str_includes (message e) ''LoggedInElsewhere'';
          s1 = (if isLoggedInElsewhere
                then writeLog (tag name @ ''Account logged in elsewhere, attempting to reconnect.'') s
                else writeLog (tag name @ ''Error: '' @ err_toString e) s);
          attempt = (if eresult e = Some InvalidPassword then key_path b else None);
          s2 = (case attempt of None \<Rightarrow> s1 | Some p \<Rightarrow> effect (Unlink p) s1);
          s3 = (if truthy (bots_get s2 name) \<and> \<not> isLoggedInElsewhere
                then effect EmitStatusUpdate (bots_delete name s2)
                else s2)
      in case (attempt, unlink_exn) of
           (Some p, Some m) \<Rightarrow> writeLog (tag name @ ''Could not delete old login key: '' @ m) s3
         | _ \<Rightarrow> s3)"

text \<open>
  \<open>save_exn\<close> is how the \<open>mkdir\<close>/\<open>appendFile\<close> chain ends, as for \<open>unlink_exn\<close>.
  The key of \<open>messageReceived\<close> is the decimal SteamID64 that the SteamID object
  renders as.
\<close>

definition on_friendMessage :: "nat \<Rightarrow> steamid \<Rightarrow> string \<Rightarrow> string option \<Rightarrow> state \<Rightarrow> state" where
  "on_friendMessage h steamID msg save_exn s =
     (let b = bot (objs s ! h);
          s1 = (if bot_receiveMessages b
                then writeLog (tag (bot_username b) @ ''Message from '' @ show_nat steamID @ '': '' @ msg) s
                else s);
          s2 = (if bot_saveMessages b then effect (AppendMessage (bot_username b) steamID msg) s1 else s1);
          s3 = (if steamID \<notin> messageReceived b \<and> autoMessage b \<noteq> []
                then (effect (ChatMessage h steamID (autoMessage b)) s2)
                       \<lparr>objs := (objs s2)[h := (objs s2 ! h)
                          \<lparr>bot := b\<lparr>messageReceived := insert steamID (messageReceived b)\<rparr>\<rparr>]\<rparr>
                else s2)
      in case (bot_saveMessages b, save_exn) of
           (True, Some m) \<Rightarrow> writeLog (tag (bot_username b) @ ''Error saving message: '' @ m) s3
         | _ \<Rightarrow> s3)"

definition on_steamGuardRequested :: "nat \<Rightarrow> state \<Rightarrow> state" where
  "on_steamGuardRequested h s =
     (let name = username (config (objs s ! h));
          s1 = effect (EmitSteamGuardRequest name) s
      in writeLog (tag name @ ''Steam Guard code required.'') s1)"

definition on_disconnected :: "nat \<Rightarrow> nat \<Rightarrow> string \<Rightarrow> state \<Rightarrow> state" where
  "on_disconnected h res msg s =
     (let name = username (config (objs s ! h));
          s1 = writeLog (tag name @ ''Disconnected: '' @ msg @ '' (Result: '' @ show_nat res @ '')'') s;
          s2 = bots_delete name s1
      in effect EmitStatusUpdate s2)"

subsection \<open>stopBot\<close>

text \<open>
  \<open>logoff_exn\<close> is how \<open>bot.logOff()\<close> ends: \<open>None\<close> when it returns, \<open>Some m\<close> when
  it throws an error with message \<open>m\<close>. When the lookup found an inherited property
  the value has no \<open>logOff\<close> method and the call itself throws a TypeError.
\<close>

definition stopBot :: "string \<Rightarrow> string option \<Rightarrow> state \<Rightarrow> state" where
  "stopBot name logoff_exn s =
     (case bots_get s name of
        Undefined \<Rightarrow> writeLog (tag name @ ''Bot is not running.'') s
      | found \<Rightarrow>
          let s1 = writeLog (tag name @ ''Stopping bot...'') s;
              s2 = (case found of
                      Bot h \<Rightarrow>
                        (case logoff_exn of
                           None \<Rightarrow> effect (LogOff h) s1
                         | Some m \<Rightarrow> writeLog (tag name @ ''Error during logOff: '' @ m) (effect (LogOff h) s1))
                    | _ \<Rightarrow> writeLog (tag name @ ''Error during logOff: bot.logOff is not a function'') s1);
              s3 = bots_delete name s2;
              s4 = effect EmitStatusUpdate s3
          in writeLog (tag name @ ''Bot stopped.'') s4)"

subsection \<open>API routes\<close>

text \<open>
  A route handler is one step of the model: the part after an \<open>await\<close> runs right
  after the part before it. Each route returns the response it sends.
\<close>

definition api_accounts :: "state \<Rightarrow> response" where
  "api_accounts s =
     AccountList (map (\<lambda>c.
       \<lparr>s_username = username c,
        s_enableStatus = enableStatus c,
        s_gamesAndStatus = gamesAndStatus c,
        s_replyMessage = replyMessage c,
        s_receiveMessages = receiveMessages c,
        s_saveMessages = saveMessages c,
        running = truthy (bots_get s (username c))\<rparr>) (configsArray s))"

definition api_start :: "(account \<Rightarrow> bot) \<Rightarrow> string \<Rightarrow> state \<Rightarrow> response \<times> state" where
  "api_start factory name s =
     (case find (\<lambda>cfg. username cfg = name) (configsArray s) of
        None \<Rightarrow> (Json 404 ''Account not found'', s)
      | Some cfg \<Rightarrow>
          if truthy (bots_get s name) then (Json 400 ''Bot already running'', s)
          else (Json 200 ''Start command received'', startBot factory cfg s))"

definition api_stop :: "string \<Rightarrow> string option \<Rightarrow> state \<Rightarrow> response \<times> state" where
  "api_stop name logoff_exn s =
     (if \<not> truthy (bots_get s name) then (Json 400 ''Bot not running'', s)
      else (Json 200 ''Stop command received'', stopBot name logoff_exn s))"

text \<open>
  An inherited property has no \<open>_waitingForGuard\<close>; a bot's flag is read from the
  store.
\<close>

definition api_submit_guard :: "string \<Rightarrow> string \<Rightarrow> state \<Rightarrow> response \<times> state" where
  "api_submit_guard name code s =
     (case bots_get s name of
        Bot h \<Rightarrow>
          if h < length (objs s) \<and> waitingForGuard (bot (objs s ! h))
          then (Json 200 ''Code submitted'',
                writeLog (tag name @ ''Steam Guard code submitted.'') (effect (SubmitSteamGuardCode h code) s))
          else (Json 400 ''No Steam Guard request pending for this account or bot not running'', s)
      | _ \<Rightarrow> (Json 400 ''No Steam Guard request pending for this account or bot not running'', s))"

text \<open>A field of the body when it is present, otherwise the value given.\<close>

definition override :: "'a option \<Rightarrow> 'a \<Rightarrow> 'a" where
  "override v d = (case v of Some x \<Rightarrow> x | None \<Rightarrow> d)"

definition falsy :: "string option \<Rightarrow> bool" where
  "falsy v = (v = None \<or> v = Some [])"

definition api_add_account :: "account_data \<Rightarrow> state \<Rightarrow> response \<times> state" where
  "api_add_account newAccount s =
     (if falsy (d_username newAccount) \<or> falsy (d_password newAccount)
      then (Json 400 ''Username and password are required'', s)
      else
        let name = override (d_username newAccount) [] in
        if list_ex (\<lambda>acc. username acc = name) (configsArray s)
        then (Json 409 ''Account with this username already exists'', s)
        else
          let acc = \<lparr>username = name,
                     password = override (d_password newAccount) [],
                     sharedSecret = override (d_sharedSecret newAccount) [],
                     enableStatus = override (d_enableStatus newAccount) True,
                     gamesAndStatus = override (d_gamesAndStatus newAccount) [],
                     replyMessage = override (d_replyMessage newAccount) [],
                     receiveMessages = override (d_receiveMessages newAccount) False,
                     saveMessages = override (d_saveMessages newAccount) False\<rparr>;
              s1 = s\<lparr>configsArray := configsArray s @ [acc]\<rparr>;
              s2 = saveConfig s1;
              s3 = writeLog (tag name @ ''Account added.'') s2
          in (Json 201 ''Account added successfully'', effect EmitStatusUpdate s3))"

fun findIndex :: "('a \<Rightarrow> bool) \<Rightarrow> 'a list \<Rightarrow> nat option" where
  "findIndex P [] = None"
| "findIndex P (x # xs) = (if P x then Some 0 else map_option Suc (findIndex P xs))"

text \<open>The object spread \<open>{...originalAccount, ...updatedData}\<close>.\<close>

definition spread :: "account \<Rightarrow> account_data \<Rightarrow> account" where
  "spread a d =
     \<lparr>username = override (d_username d) (username a),
      password = override (d_password d) (password a),
      sharedSecret = override (d_sharedSecret d) (sharedSecret a),
      enableStatus = override (d_enableStatus d) (enableStatus a),
      gamesAndStatus = override (d_gamesAndStatus d) (gamesAndStatus a),
      replyMessage = override (d_replyMessage d) (replyMessage a),
      receiveMessages = override (d_receiveMessages d) (receiveMessages a),
      saveMessages = override (d_saveMessages d) (saveMessages a)\<rparr>"

definition api_edit_account :: "string \<Rightarrow> account_data \<Rightarrow> string option \<Rightarrow> state \<Rightarrow> response \<times> state" where
  "api_edit_account name updatedData logoff_exn s =
     (case findIndex (\<lambda>acc. username acc = name) (configsArray s) of
        None \<Rightarrow> (Json 404 ''Account not found'', s)
      | Some accountIndex \<Rightarrow>
          let originalAccount = configsArray s ! accountIndex;
              s1 = s\<lparr>configsArray := (configsArray s)
                     [accountIndex := (spread originalAccount updatedData)
                                        \<lparr>username := username originalAccount\<rparr>]\<rparr>;
              s2 = (if truthy (bots_get s1 name)
                    then stopBot name logoff_exn
                           (writeLog (tag name @
                              ''Account edited. Stopping the bot to apply changes. Please restart manually.'') s1)
                    else s1);
              s3 = saveConfig s2;
              s4 = writeLog (tag name @ ''Account updated.'') s3
          in (Json 200 ''Account updated successfully. Restart the bot if it was running.'',
              effect EmitStatusUpdate s4))"

definition api_delete_account :: "string \<Rightarrow> string option \<Rightarrow> state \<Rightarrow> response \<times> state" where
  "api_delete_account name logoff_exn s =
     (case findIndex (\<lambda>acc. username acc = name) (configsArray s) of
        None \<Rightarrow> (Json 404 ''Account not found'', s)
      | Some accountIndex \<Rightarrow>
          let s1 = (if truthy (bots_get s name) then stopBot name logoff_exn s else s);
              s2 = s1\<lparr>configsArray := take accountIndex (configsArray s1)
                                       @ drop (Suc accountIndex) (configsArray s1)\<rparr>;
              s3 = saveConfig s2;
              s4 = writeLog (tag name @ ''Account deleted.'') s3
          in (Json 200 ''Account deleted successfully'', effect EmitStatusUpdate s4))"

text \<open>
  \<open>loadConfig\<close> runs once the server listens. Reading the file gives the parsed
  list, fails because the file does not exist, or fails otherwise.
\<close>

datatype load_result = Loaded "account list" | NotFound | LoadError

definition loadConfig :: "load_result \<Rightarrow> state \<Rightarrow> state" where
  "loadConfig r s =
     (case r of
        Loaded data \<Rightarrow> s\<lparr>configsArray := data\<rparr>
      | NotFound \<Rightarrow> saveConfig (s\<lparr>configsArray := []\<rparr>)
      | LoadError \<Rightarrow> s\<lparr>configsArray := []\<rparr>)"

subsection \<open>The system as a transition system\<close>

text \<open>
  An action is a call of one of the two functions, a request to a route, an event
  that a client delivers to the handlers registered on bot \<open>h\<close>, or the client
  changing its own \<open>_waitingForGuard\<close> flag, which server.js only reads. A client
  event for a handle that no \<open>startBot\<close> has allocated has no handler.
\<close>

datatype action =
    CallStartBot account
  | CallStopBot string "string option"
  | LoadConfig load_result
  | GetAccounts
  | PostStart string
  | PostStop string "string option"
  | PostSubmitGuard string string
  | PostAddAccount account_data
  | PutEditAccount string account_data "string option"
  | DeleteAccount string "string option"
  | LoggedOn nat
  | Error nat err "string option"
  | FriendMessage nat steamid string "string option"
  | SteamGuardRequested nat
  | Disconnected nat nat string
  | ClientSetsGuard nat bool

definition client_sets_guard :: "nat \<Rightarrow> bool \<Rightarrow> state \<Rightarrow> state" where
  "client_sets_guard h v s =
     s\<lparr>objs := (objs s)[h := (objs s ! h)\<lparr>bot := (bot (objs s ! h))\<lparr>waitingForGuard := v\<rparr>\<rparr>]\<rparr>"

definition deliver :: "nat \<Rightarrow> (state \<Rightarrow> state) \<Rightarrow> state \<Rightarrow> state" where
  "deliver h handler s = (if h < length (objs s) then handler s else s)"

fun step :: "(account \<Rightarrow> bot) \<Rightarrow> action \<Rightarrow> state \<Rightarrow> state" where
  "step factory (CallStartBot cfg) s = startBot factory cfg s"
| "step factory (CallStopBot name x) s = stopBot name x s"
| "step factory (LoadConfig r) s = loadConfig r s"
| "step factory GetAccounts s = s"
| "step factory (PostStart name) s = snd (api_start factory name s)"
| "step factory (PostStop name x) s = snd (api_stop name x s)"
| "step factory (PostSubmitGuard name code) s = snd (api_submit_guard name code s)"
| "step factory (PostAddAccount d) s = snd (api_add_account d s)"
| "step factory (PutEditAccount name d x) s = snd (api_edit_account name d x s)"
| "step factory (DeleteAccount name x) s = snd (api_delete_account name x s)"
| "step factory (LoggedOn h) s = deliver h (on_loggedOn h) s"
| "step factory (Error h e x) s = deliver h (on_error h e x) s"
| "step factory (FriendMessage h steamID msg x) s = deliver h (on_friendMessage h steamID msg x) s"
| "step factory (SteamGuardRequested h) s = deliver h (on_steamGuardRequested h) s"
| "step factory (Disconnected h res msg) s = deliver h (on_disconnected h res msg) s"
| "step factory (ClientSetsGuard h v) s = deliver h (client_sets_guard h v) s"

fun run :: "(account \<Rightarrow> bot) \<Rightarrow> action list \<Rightarrow> state \<Rightarrow> state" where
  "run factory [] s = s"
| "run factory (a # as) s = run factory as (step factory a s)"

inductive reachable :: "(account \<Rightarrow> bot) \<Rightarrow> state \<Rightarrow> bool" for factory where
  reachable_init: "reachable factory init"
| reachable_step: "reachable factory s \<Longrightarrow> reachable factory (step factory a s)"

text \<open>The number of automated replies that bot \<open>h\<close> has sent to \<open>peer\<close>.\<close>

fun is_reply :: "nat \<Rightarrow> steamid \<Rightarrow> effect \<Rightarrow> bool" where
  "is_reply h peer (ChatMessage h' peer' txt) = (h' = h \<and> peer' = peer)"
| "is_reply h peer _ = False"

definition replies :: "nat \<Rightarrow> steamid \<Rightarrow> effect list \<Rightarrow> nat" where
  "replies h peer es = length (filter (is_reply h peer) es)"

fun is_unlink :: "effect \<Rightarrow> bool" where
  "is_unlink (Unlink p) = True"
| "is_unlink _ = False"

text \<open>Whether \<open>peer\<close> is marked in the \<open>messageReceived\<close> object of bot \<open>h\<close>.\<close>

definition seen :: "state \<Rightarrow> nat \<Rightarrow> steamid \<Rightarrow> bool" where
  "seen s h peer = (h < length (objs s) \<and> peer \<in> messageReceived (bot (objs s ! h)))"

text \<open>What a step appended to the trace.\<close>

definition emitted :: "state \<Rightarrow> state \<Rightarrow> effect list" where
  "emitted s s' = drop (length (out s)) (out s')"

subsection \<open>The bot factory\<close>

text \<open>
  Modelled from the spec: \<open>botFactory.buildBot\<close> of src/hourBooster, which is not
  among the sources. The spec's Session Client is built fresh from the account
  configuration on every start, with the behavioural flags of the configuration
  (\<open>autoReplyText\<close>, \<open>receiveMessages\<close>, \<open>saveMessages\<close>), an empty \<open>seenPeers\<close> set
  and no challenge pending. Where the client keeps its login key is a parameter.
\<close>

definition buildBot :: "(account \<Rightarrow> string option) \<Rightarrow> account \<Rightarrow> bot" where
  "buildBot keyPath cfg =
     \<lparr>bot_username = username cfg,
      loginKeyPath = keyPath cfg,
      bot_receiveMessages = receiveMessages cfg,
      bot_saveMessages = saveMessages cfg,
      autoMessage = replyMessage cfg,
      messageReceived = {},
      waitingForGuard = False\<rparr>"

subsection \<open>The registry invariant and example data\<close>

text \<open>
  Every own entry of the registry was written by \<open>startBot\<close> or by a
  \<open>loggedOn\<close> handler: it refers to a bot in the store, under the name of the
  configuration that bot was started with, and only after the lookup of that name
  had come out falsy.
\<close>

definition registry_ok :: "state \<Rightarrow> bool" where
  "registry_ok s =
     (\<forall>name h. bots s name = Some h \<longrightarrow>
        h < length (objs s) \<and> username (config (objs s ! h)) = name
        \<and> name \<notin> set object_prototype_keys)"

definition account_named :: "string \<Rightarrow> string \<Rightarrow> account" where
  "account_named name reply =
     \<lparr>username = name, password = ''secret'', sharedSecret = [], enableStatus = True,
      gamesAndStatus = [GameId 730], replyMessage = reply, receiveMessages = True,
      saveMessages = False\<rparr>"

definition body_named :: "string \<Rightarrow> string \<Rightarrow> account_data" where
  "body_named name pw =
     \<lparr>d_username = Some name, d_password = Some pw, d_sharedSecret = None,
      d_enableStatus = None, d_gamesAndStatus = None, d_replyMessage = None,
      d_receiveMessages = None, d_saveMessages = None\<rparr>"

definition plain_factory :: "account \<Rightarrow> bot" where
  "plain_factory = buildBot (\<lambda>cfg. None)"

definition keyed_factory :: "account \<Rightarrow> bot" where
  "keyed_factory = buildBot (\<lambda>cfg. Some (''keys/'' @ username cfg))"

definition error_with :: "string \<Rightarrow> nat option \<Rightarrow> err" where
  "error_with msg res = \<lparr>err_name = ''Error'', message = msg, eresult = res\<rparr>"

section \<open>Properties\<close>

subsection \<open>What the operations do to the registry and to the store\<close>

lemma effect_fields [simp]:
  "bots (effect e s) = bots s" "objs (effect e s) = objs s"
  "configsArray (effect e s) = configsArray s" "out (effect e s) = out s @ [e]"
  by (simp_all add: effect_def)

lemma writeLog_fields [simp]:
  "bots (writeLog m s) = bots s" "objs (writeLog m s) = objs s"
  "configsArray (writeLog m s) = configsArray s" "out (writeLog m s) = out s @ [WriteLog m]"
  by (simp_all add: writeLog_def)

lemma saveConfig_fields [simp]:
  "bots (saveConfig s) = bots s" "objs (saveConfig s) = objs s"
  "configsArray (saveConfig s) = configsArray s"
  "out (saveConfig s) = out s @ [SaveConfig (configsArray s)]"
  by (simp_all add: saveConfig_def)

lemma bots_delete_fields [simp]:
  "bots (bots_delete name s) = (bots s)(name := None)" "objs (bots_delete name s) = objs s"
  "configsArray (bots_delete name s) = configsArray s" "out (bots_delete name s) = out s"
  by (simp_all add: bots_delete_def)

lemma bots_get_through [simp]:
  "bots_get (effect e s) name = bots_get s name"
  "bots_get (writeLog m s) name = bots_get s name"
  "bots_get (saveConfig s) name = bots_get s name"
  "bots_get (s\<lparr>configsArray := cs\<rparr>) name = bots_get s name"
  "bots_get (s\<lparr>objs := os\<rparr>) name = bots_get s name"
  "bots_get (s\<lparr>out := es\<rparr>) name = bots_get s name"
  by (simp_all add: bots_get_def)

lemma bots_get_Bot [simp]: "bots_get s name = Bot h \<longleftrightarrow> bots s name = Some h"
  by (simp add: bots_get_def split: option.splits)

lemma truthy_lookup:
  "truthy (bots_get s name) \<longleftrightarrow> bots s name \<noteq> None \<or> name \<in> set object_prototype_keys"
  by (simp add: truthy_def bots_get_def split: option.splits)

lemma falsy_lookup: "\<not> truthy (bots_get s name) \<longleftrightarrow> bots s name = None \<and> name \<notin> set object_prototype_keys"
  by (simp add: truthy_def bots_get_def split: option.splits)

lemma startBot_bots:
  "bots (startBot f cfg s) =
     (if truthy (bots_get s (username cfg)) then bots s else (bots s)(username cfg \<mapsto> length (objs s)))"
  by (simp add: startBot_def Let_def)

lemma startBot_objs:
  "objs (startBot f cfg s) =
     (if truthy (bots_get s (username cfg)) then objs s else objs s @ [\<lparr>config = cfg, bot = f cfg\<rparr>])"
  by (simp add: startBot_def Let_def)

lemma stopBot_bots:
  "bots (stopBot name x s) = (bots s)(name := None)"
  by (auto simp add: stopBot_def Let_def bots_get_def split: lookup.splits option.splits if_splits)

lemma stopBot_objs [simp]: "objs (stopBot name x s) = objs s"
  by (simp add: stopBot_def Let_def split: lookup.splits option.splits)

lemma stopBot_configs [simp]: "configsArray (stopBot name x s) = configsArray s"
  by (simp add: stopBot_def Let_def split: lookup.splits option.splits)

lemma on_loggedOn_bots:
  "bots (on_loggedOn h s) =
     (let name = username (config (objs s ! h))
      in if truthy (bots_get s name) then bots s else (bots s)(name \<mapsto> h))"
  by (simp add: on_loggedOn_def Let_def)

lemma on_loggedOn_objs [simp]: "objs (on_loggedOn h s) = objs s"
  by (simp add: on_loggedOn_def Let_def)

lemma on_error_bots:
  "bots (on_error h e x s) =
     (let name = username (config (objs s ! h))
      in if str_includes (message e) ''LoggedInElsewhere'' then bots s else (bots s)(name := None))"
  by (auto simp add: on_error_def Let_def falsy_lookup split: option.splits prod.splits)

lemma on_error_objs [simp]: "objs (on_error h e x s) = objs s"
  by (simp add: on_error_def Let_def split: option.splits prod.splits)

lemma on_friendMessage_bots [simp]: "bots (on_friendMessage h p m x s) = bots s"
  by (simp add: on_friendMessage_def Let_def split: option.splits prod.splits bool.splits)

lemma on_friendMessage_length [simp]: "length (objs (on_friendMessage h p m x s)) = length (objs s)"
  by (simp add: on_friendMessage_def Let_def split: option.splits prod.splits bool.splits)

lemma on_friendMessage_config [simp]: "config (objs (on_friendMessage h p m x s) ! k) = config (objs s ! k)"
  by (cases "k = h"; cases "h < length (objs s)")
     (simp_all add: on_friendMessage_def Let_def list_update_beyond
        split: option.splits prod.splits bool.splits)

lemma client_sets_guard_fields [simp]:
  "bots (client_sets_guard h v s) = bots s"
  "length (objs (client_sets_guard h v s)) = length (objs s)"
  "config (objs (client_sets_guard h v s) ! k) = config (objs s ! k)"
  "out (client_sets_guard h v s) = out s"
  by (cases "k = h"; cases "h < length (objs s)"; simp add: client_sets_guard_def list_update_beyond)+

lemma on_steamGuardRequested_fields [simp]:
  "bots (on_steamGuardRequested h s) = bots s" "objs (on_steamGuardRequested h s) = objs s"
  by (simp_all add: on_steamGuardRequested_def Let_def)

lemma on_disconnected_bots:
  "bots (on_disconnected h r m s) = (bots s)(username (config (objs s ! h)) := None)"
  by (simp add: on_disconnected_def Let_def)

lemma on_disconnected_objs [simp]: "objs (on_disconnected h r m s) = objs s"
  by (simp add: on_disconnected_def Let_def)

lemma loadConfig_fields [simp]:
  "bots (loadConfig r s) = bots s" "objs (loadConfig r s) = objs s"
  by (simp_all add: loadConfig_def split: load_result.splits)

lemma api_start_state:
  "snd (api_start f name s) = s \<or>
     (\<exists>cfg. username cfg = name \<and> snd (api_start f name s) = startBot f cfg s)"
  by (auto simp add: api_start_def find_Some_iff split: option.splits)

lemma api_stop_state:
  "snd (api_stop name x s) = s \<or> snd (api_stop name x s) = stopBot name x s"
  by (simp add: api_stop_def)

lemma api_submit_guard_fields [simp]:
  "bots (snd (api_submit_guard name code s)) = bots s"
  "objs (snd (api_submit_guard name code s)) = objs s"
  "configsArray (snd (api_submit_guard name code s)) = configsArray s"
  by (simp_all add: api_submit_guard_def split: lookup.splits)

lemma api_add_account_fields [simp]:
  "bots (snd (api_add_account d s)) = bots s" "objs (snd (api_add_account d s)) = objs s"
  by (simp_all add: api_add_account_def Let_def)

lemma api_edit_account_bots:
  "bots (snd (api_edit_account name d x s)) = bots s \<or>
   bots (snd (api_edit_account name d x s)) = (bots s)(name := None)"
  by (simp add: api_edit_account_def Let_def stopBot_bots split: option.splits)

lemma api_edit_account_objs [simp]: "objs (snd (api_edit_account name d x s)) = objs s"
  by (simp add: api_edit_account_def Let_def split: option.splits)

lemma api_delete_account_bots:
  "bots (snd (api_delete_account name x s)) = bots s \<or>
   bots (snd (api_delete_account name x s)) = (bots s)(name := None)"
  by (simp add: api_delete_account_def Let_def stopBot_bots split: option.splits)

lemma api_delete_account_objs [simp]: "objs (snd (api_delete_account name x s)) = objs s"
  by (simp add: api_delete_account_def Let_def split: option.splits)

subsection \<open>The registry invariant\<close>

lemma registry_ok_init: "registry_ok init"
  by (simp add: registry_ok_def init_def)

lemma registry_ok_delete:
  "registry_ok s \<Longrightarrow> bots s' = (bots s)(name := None) \<Longrightarrow> objs s' = objs s \<Longrightarrow> registry_ok s'"
  by (simp add: registry_ok_def)

lemma registry_ok_same:
  "registry_ok s \<Longrightarrow> bots s' = bots s \<Longrightarrow> length (objs s') = length (objs s)
     \<Longrightarrow> (\<And>k. config (objs s' ! k) = config (objs s ! k)) \<Longrightarrow> registry_ok s'"
  by (simp add: registry_ok_def)

lemma registry_ok_startBot:
  assumes ok: "registry_ok s"
  shows "registry_ok (startBot f cfg s)"
proof (cases "truthy (bots_get s (username cfg))")
  case True
  with ok show ?thesis
    by (simp add: registry_ok_def startBot_bots startBot_objs)
next
  case False
  then have fresh: "bots s (username cfg) = None" "username cfg \<notin> set object_prototype_keys"
    by (simp_all add: falsy_lookup)
  show ?thesis
    unfolding registry_ok_def
  proof (intro allI impI)
    fix name h
    assume entry: "bots (startBot f cfg s) name = Some h"
    show "h < length (objs (startBot f cfg s))
          \<and> username (config (objs (startBot f cfg s) ! h)) = name
          \<and> name \<notin> set object_prototype_keys"
    proof (cases "name = username cfg")
      case True
      with entry False fresh show ?thesis
        by (auto simp add: startBot_bots startBot_objs nth_append)
    next
      case other: False
      with entry False have "bots s name = Some h"
        by (simp add: startBot_bots)
      with ok have "h < length (objs s)" "username (config (objs s ! h)) = name"
        "name \<notin> set object_prototype_keys"
        by (simp_all add: registry_ok_def)
      with False show ?thesis
        by (simp add: startBot_objs nth_append)
    qed
  qed
qed

lemma registry_ok_stopBot: "registry_ok s \<Longrightarrow> registry_ok (stopBot name x s)"
  by (rule registry_ok_delete[where s = s and name = name]) (simp_all add: stopBot_bots)

lemma registry_ok_on_loggedOn:
  "registry_ok s \<Longrightarrow> h < length (objs s) \<Longrightarrow> registry_ok (on_loggedOn h s)"
  by (auto simp add: registry_ok_def on_loggedOn_bots Let_def falsy_lookup split: if_splits)

lemma registry_ok_step: "registry_ok s \<Longrightarrow> registry_ok (step f a s)"
proof (cases a)
  case (CallStartBot cfg)
  assume "registry_ok s"
  then show ?thesis using CallStartBot by (simp add: registry_ok_startBot)
next
  case (CallStopBot name x)
  assume "registry_ok s"
  then show ?thesis using CallStopBot by (simp add: registry_ok_stopBot)
next
  case (LoadConfig r)
  assume "registry_ok s"
  then show ?thesis using LoadConfig by (auto intro: registry_ok_same)
next
  case GetAccounts
  assume "registry_ok s"
  then show ?thesis using GetAccounts by simp
next
  case (PostStart name)
  assume ok: "registry_ok s"
  from api_start_state[of f name s] show ?thesis
    using ok PostStart by (auto simp add: registry_ok_startBot)
next
  case (PostStop name x)
  assume ok: "registry_ok s"
  from api_stop_state[of name x s] show ?thesis
    using ok PostStop by (auto simp add: registry_ok_stopBot)
next
  case (PostSubmitGuard name code)
  assume "registry_ok s"
  then show ?thesis using PostSubmitGuard by (auto intro: registry_ok_same)
next
  case (PostAddAccount d)
  assume "registry_ok s"
  then show ?thesis using PostAddAccount by (auto intro: registry_ok_same)
next
  case (PutEditAccount name d x)
  assume ok: "registry_ok s"
  from api_edit_account_bots[of name d x s] show ?thesis
    using ok PutEditAccount by (auto intro: registry_ok_same registry_ok_delete)
next
  case (DeleteAccount name x)
  assume ok: "registry_ok s"
  from api_delete_account_bots[of name x s] show ?thesis
    using ok DeleteAccount by (auto intro: registry_ok_same registry_ok_delete)
next
  case (LoggedOn h)
  assume "registry_ok s"
  then show ?thesis using LoggedOn by (simp add: deliver_def registry_ok_on_loggedOn)
next
  case (Error h e x)
  assume ok: "registry_ok s"
  show ?thesis
  proof (cases "str_includes (message e) ''LoggedInElsewhere''")
    case True
    with ok Error show ?thesis
      by (auto simp add: deliver_def on_error_bots intro: registry_ok_same)
  next
    case False
    with ok Error show ?thesis
      by (auto simp add: deliver_def on_error_bots Let_def intro: registry_ok_delete)
  qed
next
  case (FriendMessage h p m x)
  assume "registry_ok s"
  then show ?thesis using FriendMessage by (auto simp add: deliver_def intro: registry_ok_same)
next
  case (SteamGuardRequested h)
  assume "registry_ok s"
  then show ?thesis using SteamGuardRequested by (auto simp add: deliver_def intro: registry_ok_same)
next
  case (Disconnected h r m)
  assume "registry_ok s"
  then show ?thesis using Disconnected
    by (auto simp add: deliver_def on_disconnected_bots intro: registry_ok_delete)
next
  case (ClientSetsGuard h v)
  assume "registry_ok s"
  then show ?thesis using ClientSetsGuard by (auto simp add: deliver_def intro: registry_ok_same)
qed

lemma reachable_registry_ok: "reachable f s \<Longrightarrow> registry_ok s"
  by (induction rule: reachable.induct) (simp_all add: registry_ok_init registry_ok_step)

lemma reachable_run: "reachable f s \<Longrightarrow> reachable f (run f as s)"
  by (induction as arbitrary: s) (simp_all add: reachable_step)

subsection \<open>Automated replies in the trace\<close>

lemma replies_simps [simp]:
  "replies h p [] = 0"
  "replies h p (e # es) = (if is_reply h p e then 1 else 0) + replies h p es"
  "replies h p (es @ es') = replies h p es + replies h p es'"
  by (simp_all add: replies_def)

lemma replies_startBot [simp]: "replies h p (out (startBot f cfg s)) = replies h p (out s)"
  by (simp add: startBot_def Let_def)

lemma replies_stopBot [simp]: "replies h p (out (stopBot name x s)) = replies h p (out s)"
  by (simp add: stopBot_def Let_def split: lookup.splits option.splits)

lemma replies_on_loggedOn [simp]: "replies h p (out (on_loggedOn k s)) = replies h p (out s)"
  by (simp add: on_loggedOn_def Let_def)

lemma replies_on_error [simp]: "replies h p (out (on_error k e x s)) = replies h p (out s)"
  by (simp add: on_error_def Let_def split: option.splits)

lemma replies_on_steamGuardRequested [simp]:
  "replies h p (out (on_steamGuardRequested k s)) = replies h p (out s)"
  by (simp add: on_steamGuardRequested_def Let_def)

lemma replies_on_disconnected [simp]:
  "replies h p (out (on_disconnected k r m s)) = replies h p (out s)"
  by (simp add: on_disconnected_def Let_def)

lemma replies_loadConfig [simp]: "replies h p (out (loadConfig r s)) = replies h p (out s)"
  by (simp add: loadConfig_def split: load_result.splits)

lemma replies_api_start [simp]: "replies h p (out (snd (api_start f name s))) = replies h p (out s)"
  by (simp add: api_start_def split: option.splits)

lemma replies_api_stop [simp]: "replies h p (out (snd (api_stop name x s))) = replies h p (out s)"
  by (simp add: api_stop_def)

lemma replies_api_submit_guard [simp]:
  "replies h p (out (snd (api_submit_guard name code s))) = replies h p (out s)"
  by (simp add: api_submit_guard_def split: lookup.splits)

lemma replies_api_add_account [simp]:
  "replies h p (out (snd (api_add_account d s))) = replies h p (out s)"
  by (simp add: api_add_account_def Let_def)

lemma replies_api_edit_account [simp]:
  "replies h p (out (snd (api_edit_account name d x s))) = replies h p (out s)"
  by (simp add: api_edit_account_def Let_def split: option.splits)

lemma replies_api_delete_account [simp]:
  "replies h p (out (snd (api_delete_account name x s))) = replies h p (out s)"
  by (simp add: api_delete_account_def Let_def split: option.splits)

lemma replies_on_friendMessage:
  "replies h p (out (on_friendMessage k q m x s)) =
     replies h p (out s) +
       (if k = h \<and> q = p \<and> q \<notin> messageReceived (bot (objs s ! k)) \<and> autoMessage (bot (objs s ! k)) \<noteq> []
        then 1 else 0)"
  by (simp add: on_friendMessage_def Let_def split: option.splits bool.splits)

lemma messageReceived_on_friendMessage:
  "k < length (objs s) \<Longrightarrow>
   messageReceived (bot (objs (on_friendMessage k q m x s) ! h)) =
     (if h = k \<and> q \<notin> messageReceived (bot (objs s ! k)) \<and> autoMessage (bot (objs s ! k)) \<noteq> []
      then insert q (messageReceived (bot (objs s ! h)))
      else messageReceived (bot (objs s ! h)))"
  by (simp add: on_friendMessage_def Let_def nth_list_update split: option.splits bool.splits)

lemma seen_startBot: "seen s h p \<Longrightarrow> seen (startBot f cfg s) h p"
  by (simp add: seen_def startBot_objs nth_append)

lemma seen_client_sets_guard: "seen s h p \<Longrightarrow> seen (client_sets_guard k v s) h p"
  by (cases "k = h") (simp_all add: seen_def client_sets_guard_def)

lemma seen_on_friendMessage:
  "k < length (objs s) \<Longrightarrow> seen s h p \<Longrightarrow> seen (on_friendMessage k q m x s) h p"
  by (auto simp add: seen_def messageReceived_on_friendMessage)

lemma seen_step: "seen s h p \<Longrightarrow> seen (step f a s) h p"
proof (cases a)
  case (PostStart name)
  assume "seen s h p"
  with api_start_state[of f name s] PostStart show ?thesis
    by (auto simp add: seen_startBot)
next
  case (PostStop name x)
  assume "seen s h p"
  with api_stop_state[of name x s] PostStop show ?thesis
    by (auto simp add: seen_def)
next
  case (LoadConfig r)
  assume "seen s h p"
  with LoadConfig show ?thesis by (simp add: seen_def)
next
  case (CallStopBot name x)
  assume "seen s h p"
  with CallStopBot show ?thesis by (simp add: seen_def)
next
  case (PostSubmitGuard name code)
  assume "seen s h p"
  with PostSubmitGuard show ?thesis by (simp add: seen_def)
next
  case (PostAddAccount d)
  assume "seen s h p"
  with PostAddAccount show ?thesis by (simp add: seen_def)
next
  case (PutEditAccount name d x)
  assume "seen s h p"
  with PutEditAccount show ?thesis by (simp add: seen_def)
next
  case (DeleteAccount name x)
  assume "seen s h p"
  with DeleteAccount show ?thesis by (simp add: seen_def)
next
  case (LoggedOn k)
  assume "seen s h p"
  with LoggedOn show ?thesis by (simp add: seen_def deliver_def)
next
  case (Error k e x)
  assume "seen s h p"
  with Error show ?thesis by (simp add: seen_def deliver_def)
next
  case (SteamGuardRequested k)
  assume "seen s h p"
  with SteamGuardRequested show ?thesis by (simp add: seen_def deliver_def)
next
  case (Disconnected k r m)
  assume "seen s h p"
  with Disconnected show ?thesis by (simp add: seen_def deliver_def)
qed (simp_all add: seen_startBot seen_client_sets_guard seen_on_friendMessage deliver_def)

lemma replies_step:
  "replies h p (out (step f a s)) =
     replies h p (out s) +
       (if (\<exists>m x. a = FriendMessage h p m x) \<and> h < length (objs s) \<and> \<not> seen s h p
             \<and> autoMessage (bot (objs s ! h)) \<noteq> []
        then 1 else 0)"
  by (cases a) (auto simp add: deliver_def replies_on_friendMessage seen_def)

lemma replied_then_seen:
  "replies h p (out (step f a s)) \<noteq> replies h p (out s) \<Longrightarrow> seen (step f a s) h p"
  by (cases a)
     (auto simp add: deliver_def replies_on_friendMessage seen_def messageReceived_on_friendMessage
        split: if_splits)

lemma replies_run:
  "replies h p (out (run f as s)) \<le> replies h p (out s) + (if seen s h p then 0 else 1)"
proof (induction as arbitrary: s)
  case Nil
  show ?case by simp
next
  case (Cons a as)
  let ?s' = "step f a s"
  have ih: "replies h p (out (run f as ?s')) \<le> replies h p (out ?s') + (if seen ?s' h p then 0 else 1)"
    by (rule Cons.IH)
  show ?case
  proof (cases "replies h p (out ?s') = replies h p (out s)")
    case True
    with ih seen_step[of s h p f a] show ?thesis
      by (auto split: if_splits)
  next
    case False
    then have now: "seen ?s' h p" by (rule replied_then_seen)
    from False have "replies h p (out ?s') = replies h p (out s) + 1" "\<not> seen s h p"
      by (simp_all add: replies_step split: if_splits)
    with ih now show ?thesis by simp
  qed
qed

subsection \<open>Starting and stopping\<close>

lemma emitted_append: "out s' = out s @ es \<Longrightarrow> emitted s s' = es"
  by (simp add: emitted_def)

lemma findIndex_Some: "findIndex P xs = Some i \<Longrightarrow> i < length xs \<and> P (xs ! i)"
  by (induction xs arbitrary: i) (auto split: if_splits)

text \<open>
  For a name that \<open>Object.prototype\<close> does not define, the lookup is truthy
  exactly when the registry has an entry. Then \<open>stopBot\<close> on a running bot calls
  \<open>logOff\<close>, logs what it throws, deletes the entry and broadcasts; on any other
  name it only logs. A second \<open>startBot\<close> only logs, and a first one on a free
  name registers the bot it builds.
\<close>

lemma stopBot_own:
  "bots s name = Some h \<Longrightarrow>
   stopBot name x s =
     s\<lparr>bots := (bots s)(name := None),
       out := out s @ [WriteLog (tag name @ ''Stopping bot...''), LogOff h]
                @ (case x of None \<Rightarrow> [] | Some m \<Rightarrow> [WriteLog (tag name @ ''Error during logOff: '' @ m)])
                @ [EmitStatusUpdate, WriteLog (tag name @ ''Bot stopped.'')]\<rparr>"
  by (simp add: stopBot_def bots_get_def Let_def writeLog_def effect_def bots_delete_def
        split: option.splits)

lemma stopBot_undefined:
  "bots s name = None \<Longrightarrow> name \<notin> set object_prototype_keys \<Longrightarrow>
   stopBot name x s = s\<lparr>out := out s @ [WriteLog (tag name @ ''Bot is not running.'')]\<rparr>"
  by (simp add: stopBot_def bots_get_def writeLog_def effect_def)

lemma startBot_again:
  "startBot f cfg (startBot f cfg s) =
     (startBot f cfg s)\<lparr>out := out (startBot f cfg s) @ [WriteLog (tag (username cfg) @ ''Bot is already running.'')]\<rparr>"
proof -
  have "truthy (bots_get (startBot f cfg s) (username cfg))"
    by (cases "truthy (bots_get s (username cfg))")
       (simp_all add: startBot_def Let_def truthy_def bots_get_def)
  then show ?thesis
    by (subst startBot_def) (simp add: writeLog_def effect_def)
qed

lemma startBot_registers:
  "bots s (username cfg) = None \<Longrightarrow> username cfg \<notin> set object_prototype_keys \<Longrightarrow>
   bots (startBot f cfg s) = (bots s)(username cfg \<mapsto> length (objs s))
   \<and> objs (startBot f cfg s) = objs s @ [\<lparr>config = cfg, bot = f cfg\<rparr>]"
  by (simp add: startBot_bots startBot_objs truthy_lookup)

text \<open>
  Claim C1: for every account identifier, two calls of start in a row leave exactly
  one session in the registry, the second call only logging that the bot is already
  running. For an identifier that names a property inherited from
  \<open>Object.prototype\<close> the lookup in \<open>startBot\<close> is truthy although nothing was
  registered: already the first call takes the "already running" exit, no client
  is built and the registry holds no session for the identifier. A start request
  for such an account, once it has been added, is answered with "Bot already
  running".
\<close>

theorem startBot_twice_inherited_name:
  "bots (startBot f (account_named ''constructor'' []) (startBot f (account_named ''constructor'' []) init))
     ''constructor'' = None
   \<and> objs (startBot f (account_named ''constructor'' []) (startBot f (account_named ''constructor'' []) init)) = []
   \<and> out (startBot f (account_named ''constructor'' []) (startBot f (account_named ''constructor'' []) init))
       = [WriteLog ''[constructor] Bot is already running.'',
          WriteLog ''[constructor] Bot is already running.'']
   \<and> fst (api_start f ''constructor'' (snd (api_add_account (body_named ''constructor'' ''pw'') init)))
       = Json 400 ''Bot already running''"
  by (simp add: startBot_def account_named_def init_def bots_get_def truthy_def
        object_prototype_keys_def writeLog_def effect_def tag_def api_start_def
        api_add_account_def body_named_def falsy_def override_def Let_def)

text \<open>
  Claim C3: stop on an identifier with no registry entry logs that the bot is not
  running and returns. For the inherited name \<open>toString\<close> and an empty registry,
  \<open>stopBot\<close> takes the branch of a running bot: it logs the stop, the call of
  \<open>logOff\<close> on the inherited function throws, the error is logged, a status update
  is broadcast and the bot is reported stopped. It does not raise.
\<close>

theorem stopBot_inherited_name:
  "stopBot ''toString'' None init =
     init\<lparr>out := [WriteLog ''[toString] Stopping bot...'',
                   WriteLog ''[toString] Error during logOff: bot.logOff is not a function'',
                   EmitStatusUpdate,
                   WriteLog ''[toString] Bot stopped.'']\<rparr>"
  by (simp add: stopBot_def init_def bots_get_def object_prototype_keys_def writeLog_def
        effect_def tag_def bots_delete_def)

subsection \<open>The account list\<close>

text \<open>
  The account list does not depend on the \<open>password\<close> and \<open>sharedSecret\<close> of
  any account, and for a name that is not inherited \<open>running\<close> tells whether the
  registry has an entry.
\<close>

lemma accounts_hide_credentials:
  "api_accounts (s\<lparr>configsArray := map (\<lambda>c. c\<lparr>password := pw c, sharedSecret := secret c\<rparr>) cs\<rparr>)
     = api_accounts (s\<lparr>configsArray := cs\<rparr>)"
  by (simp add: api_accounts_def o_def)

lemma accounts_running:
  "api_accounts s = AccountList rows \<Longrightarrow> i < length (configsArray s) \<Longrightarrow>
   username (configsArray s ! i) \<notin> set object_prototype_keys \<Longrightarrow>
   s_username (rows ! i) = username (configsArray s ! i)
   \<and> running (rows ! i) = (bots s (username (configsArray s ! i)) \<noteq> None)"
  by (auto simp add: api_accounts_def truthy_def bots_get_def split: option.splits)

text \<open>
  Claim C8: a row of the account list has \<open>running\<close> true exactly when the registry
  holds an entry for the account. After an account named \<open>constructor\<close> has been
  added through the API, with nothing ever started, the registry has no entry for
  it and the account list shows it as running.
\<close>

theorem accounts_running_inherited_name:
  "bots (snd (api_add_account (body_named ''constructor'' ''pw'') init)) ''constructor'' = None
   \<and> api_accounts (snd (api_add_account (body_named ''constructor'' ''pw'') init)) =
       AccountList [\<lparr>s_username = ''constructor'', s_enableStatus = True, s_gamesAndStatus = [],
                     s_replyMessage = [], s_receiveMessages = False, s_saveMessages = False,
                     running = True\<rparr>]"
  by (simp add: api_add_account_def api_accounts_def body_named_def init_def falsy_def
        override_def Let_def bots_get_def truthy_def object_prototype_keys_def)

subsection \<open>Error and disconnect events\<close>

lemma reachable_entry:
  "reachable f s \<Longrightarrow> bots s name = Some h \<Longrightarrow>
   h < length (objs s) \<and> username (config (objs s ! h)) = name \<and> name \<notin> set object_prototype_keys"
  using reachable_registry_ok[of f s] by (simp add: registry_ok_def)

text \<open>
  Claim C2: for a session that is in the registry, an error event whose message
  contains \<open>LoggedInElsewhere\<close> leaves the registry as it is, every other error
  event removes the session's entry, and so does every disconnected event.
\<close>

theorem elsewhere_error_keeps_entry_others_remove_it:
  assumes "reachable f s" and "bots s name = Some h"
  shows "(str_includes (message e) ''LoggedInElsewhere'' \<longrightarrow> bots (step f (Error h e x) s) = bots s)
       \<and> (\<not> str_includes (message e) ''LoggedInElsewhere'' \<longrightarrow> bots (step f (Error h e x) s) name = None)
       \<and> bots (step f (Disconnected h res msg) s) name = None"
proof -
  from assms have "h < length (objs s)" "username (config (objs s ! h)) = name"
    by (simp_all add: reachable_entry)
  then show ?thesis
    by (simp add: deliver_def on_error_bots on_disconnected_bots)
qed

lemma account_named_fields [simp]:
  "username (account_named name reply) = name"
  "replyMessage (account_named name reply) = reply"
  "receiveMessages (account_named name reply) = True"
  "saveMessages (account_named name reply) = False"
  by (simp_all add: account_named_def)

lemma demo_started:
  "bots (startBot f (account_named name reply) init) name =
     (if name \<in> set object_prototype_keys then None else Some 0)"
  "objs (startBot f (account_named name reply) init) =
     (if name \<in> set object_prototype_keys then []
      else [\<lparr>config = account_named name reply, bot = f (account_named name reply)\<rparr>])"
  by (simp_all add: startBot_bots startBot_objs init_def bots_get_def truthy_def)

theorem elsewhere_error_keeps_entry_others_remove_it_witness:
  "bots (step plain_factory (Error 0 (error_with ''Error: LoggedInElsewhere'' (Some 6)) None)
           (run plain_factory [CallStartBot (account_named ''dave'' [])] init)) ''dave'' = Some 0
   \<and> bots (step plain_factory (Error 0 (error_with ''RateLimitExceeded'' (Some 84)) None)
           (run plain_factory [CallStartBot (account_named ''dave'' [])] init)) ''dave'' = None
   \<and> bots (step plain_factory (Disconnected 0 3 ''NoConnection'')
           (run plain_factory [CallStartBot (account_named ''dave'' [])] init)) ''dave'' = None"
proof -
  let ?s = "run plain_factory [CallStartBot (account_named ''dave'' [])] init"
  have r: "reachable plain_factory ?s"
    by (rule reachable_run) (rule reachable_init)
  have b: "bots ?s ''dave'' = Some 0"
    by (simp add: demo_started object_prototype_keys_def)
  have yes: "str_includes (message (error_with ''Error: LoggedInElsewhere'' (Some 6))) ''LoggedInElsewhere''"
    by (simp add: error_with_def)
  have no: "\<not> str_includes (message (error_with ''RateLimitExceeded'' (Some 84))) ''LoggedInElsewhere''"
    by (simp add: error_with_def)
  from elsewhere_error_keeps_entry_others_remove_it[OF r b, of "error_with ''Error: LoggedInElsewhere'' (Some 6)" None 3 "''NoConnection''"]
    elsewhere_error_keeps_entry_others_remove_it[OF r b, of "error_with ''RateLimitExceeded'' (Some 84)" None 3 "''NoConnection''"]
    yes no b
  show ?thesis by simp
qed

subsection \<open>Invalid password\<close>

lemma on_error_out:
  "out (on_error h e x s) =
     out s
     @ [WriteLog (tag (username (config (objs s ! h))) @
          (if str_includes (message e) ''LoggedInElsewhere''
           then ''Account logged in elsewhere, attempting to reconnect.''
           else ''Error: '' @ err_toString e))]
     @ (case (if eresult e = Some InvalidPassword then key_path (bot (objs s ! h)) else None) of
          None \<Rightarrow> [] | Some p \<Rightarrow> [Unlink p])
     @ (if truthy (bots_get s (username (config (objs s ! h))))
           \<and> \<not> str_includes (message e) ''LoggedInElsewhere''
        then [EmitStatusUpdate] else [])
     @ (case (if eresult e = Some InvalidPassword then key_path (bot (objs s ! h)) else None, x) of
          (Some p, Some m) \<Rightarrow>
            [WriteLog (tag (username (config (objs s ! h))) @ ''Could not delete old login key: '' @ m)]
        | _ \<Rightarrow> [])"
  by (cases "eresult e = Some InvalidPassword"; cases "key_path (bot (objs s ! h))"; cases x)
     (simp_all add: on_error_def Let_def)

lemma on_error_configs [simp]: "configsArray (on_error h e x s) = configsArray s"
  by (simp add: on_error_def Let_def split: option.splits prod.splits)

text \<open>
  Claim C4 says that every error event with the invalid-password result code
  triggers exactly one attempt to delete the stored login key. A bot without a
  \<open>loginKeyPath\<close> makes none.
\<close>

theorem invalid_password_without_key_counterexample:
  "eresult (error_with ''InvalidPassword'' (Some InvalidPassword)) = Some InvalidPassword
   \<and> length (filter is_unlink
        (emitted (run plain_factory [CallStartBot (account_named ''carol'' [])] init)
           (step plain_factory (Error 0 (error_with ''InvalidPassword'' (Some InvalidPassword)) None)
              (run plain_factory [CallStartBot (account_named ''carol'' [])] init)))) \<noteq> 1"
proof -
  let ?s = "startBot plain_factory (account_named ''carol'' []) init"
  have o: "objs ?s = [\<lparr>config = account_named ''carol'' [], bot = plain_factory (account_named ''carol'' [])\<rparr>]"
    by (simp add: demo_started object_prototype_keys_def)
  have k: "key_path (plain_factory (account_named ''carol'' [])) = None"
    by (simp add: key_path_def plain_factory_def buildBot_def)
  have "emitted ?s (on_error 0 (error_with ''InvalidPassword'' (Some InvalidPassword)) None ?s)
          = drop (length (out ?s)) (out (on_error 0 (error_with ''InvalidPassword'' (Some InvalidPassword)) None ?s))"
    by (simp add: emitted_def)
  then show ?thesis
    using o k by (simp add: deliver_def on_error_out error_with_def)
qed

text \<open>
  Claim C4, as the code has it: an error event with the invalid-password result
  code makes exactly one \<open>fs.unlink\<close> call, on the bot's \<open>loginKeyPath\<close>, when the
  bot has a non-empty \<open>loginKeyPath\<close>, and none otherwise. How the deletion ends
  changes neither the registry nor the store nor the configuration: a failure only
  adds one log line.
\<close>

theorem invalid_password_unlink_attempts:
  assumes "h < length (objs s)" and "eresult e = Some InvalidPassword"
  shows "filter is_unlink (emitted s (step f (Error h e x) s)) =
           (case key_path (bot (objs s ! h)) of None \<Rightarrow> [] | Some p \<Rightarrow> [Unlink p])
       \<and> bots (step f (Error h e x) s) = bots (step f (Error h e None) s)
       \<and> objs (step f (Error h e x) s) = objs (step f (Error h e None) s)
       \<and> configsArray (step f (Error h e x) s) = configsArray (step f (Error h e None) s)
       \<and> out (step f (Error h e x) s) =
           out (step f (Error h e None) s)
           @ (case (key_path (bot (objs s ! h)), x) of
                (Some p, Some m) \<Rightarrow>
                  [WriteLog (tag (username (config (objs s ! h))) @ ''Could not delete old login key: '' @ m)]
              | _ \<Rightarrow> [])"
proof -
  from assms have "emitted s (step f (Error h e x) s) = drop (length (out s)) (out (on_error h e x s))"
    by (simp add: emitted_def deliver_def)
  with assms show ?thesis
    by (simp add: deliver_def on_error_out on_error_bots split: option.splits)
qed

lemma keyed_demo:
  "key_path (keyed_factory (account_named ''carol'' [])) = Some ''keys/carol''"
  "key_path (plain_factory (account_named ''carol'' [])) = None"
  by (simp_all add: key_path_def keyed_factory_def plain_factory_def buildBot_def)

theorem invalid_password_unlink_attempts_witness:
  "filter is_unlink
     (emitted (run keyed_factory [CallStartBot (account_named ''carol'' [])] init)
        (step keyed_factory (Error 0 (error_with ''InvalidPassword'' (Some InvalidPassword)) (Some ''ENOENT''))
           (run keyed_factory [CallStartBot (account_named ''carol'' [])] init)))
     = [Unlink ''keys/carol'']
   \<and> filter is_unlink
     (emitted (run plain_factory [CallStartBot (account_named ''carol'' [])] init)
        (step plain_factory (Error 0 (error_with ''InvalidPassword'' (Some InvalidPassword)) (Some ''ENOENT''))
           (run plain_factory [CallStartBot (account_named ''carol'' [])] init)))
     = []
   \<and> bots (step keyed_factory (Error 0 (error_with ''InvalidPassword'' (Some InvalidPassword)) (Some ''ENOENT''))
           (run keyed_factory [CallStartBot (account_named ''carol'' [])] init)) ''carol'' = None"
proof -
  let ?e = "error_with ''InvalidPassword'' (Some InvalidPassword)"
  let ?k = "run keyed_factory [CallStartBot (account_named ''carol'' [])] init"
  let ?p = "run plain_factory [CallStartBot (account_named ''carol'' [])] init"
  have e: "eresult ?e = Some InvalidPassword" by (simp add: error_with_def)
  have lk: "0 < length (objs ?k)" and lp: "0 < length (objs ?p)"
    by (simp_all add: demo_started object_prototype_keys_def)
  have none: "bots (step keyed_factory (Error 0 ?e None) ?k) ''carol'' = None"
    by (simp add: deliver_def on_error_bots demo_started object_prototype_keys_def
          error_with_def)
  from invalid_password_unlink_attempts[OF lk e, of keyed_factory "Some ''ENOENT''"]
       invalid_password_unlink_attempts[OF lp e, of plain_factory "Some ''ENOENT''"]
       none
  show ?thesis
    by (simp add: demo_started object_prototype_keys_def keyed_demo)
qed

subsection \<open>Automated replies\<close>

text \<open>
  Claim C5: within the lifetime of a session, a peer gets at most one automated
  reply however many messages it sends. Over any sequence of actions, bot \<open>h\<close>
  sends at most one reply to \<open>peer\<close>, and none when the peer is already marked.
  A \<open>friendMessage\<close> event sends a reply exactly when \<open>autoMessage\<close> is non-empty
  and the peer is not yet marked; after it the peer is marked.
\<close>

theorem at_most_one_auto_reply:
  "replies h peer (out (run f as s)) \<le> replies h peer (out s) + (if seen s h peer then 0 else 1)
   \<and> (h < length (objs s) \<longrightarrow>
        replies h peer (out (step f (FriendMessage h peer msg x) s)) =
          replies h peer (out s)
          + (if autoMessage (bot (objs s ! h)) \<noteq> [] \<and> \<not> seen s h peer then 1 else 0)
        \<and> (autoMessage (bot (objs s ! h)) \<noteq> [] \<longrightarrow>
             seen (step f (FriendMessage h peer msg x) s) h peer))"
proof -
  have "seen (step f (FriendMessage h peer msg x) s) h peer"
    if "h < length (objs s)" "autoMessage (bot (objs s ! h)) \<noteq> []"
    using that by (simp add: deliver_def seen_def messageReceived_on_friendMessage)
  then show ?thesis
    by (simp add: replies_run replies_step del: step.simps)
qed

lemma plain_demo [simp]:
  "autoMessage (plain_factory cfg) = replyMessage cfg"
  "messageReceived (plain_factory cfg) = {}"
  "bot_receiveMessages (plain_factory cfg) = receiveMessages cfg"
  "bot_saveMessages (plain_factory cfg) = saveMessages cfg"
  "bot_username (plain_factory cfg) = username cfg"
  "waitingForGuard (plain_factory cfg) = False"
  by (simp_all add: plain_factory_def buildBot_def)

theorem at_most_one_auto_reply_witness:
  "replies 0 7 (out (run plain_factory
       [CallStartBot (account_named ''alice'' ''hi''),
        FriendMessage 0 7 ''hello'' None, FriendMessage 0 7 ''hello'' None] init)) = 1
   \<and> replies 0 7 (out (step plain_factory (FriendMessage 0 7 ''hello'' None)
         (run plain_factory [CallStartBot (account_named ''alice'' ''hi'')] init))) = 1
   \<and> seen (step plain_factory (FriendMessage 0 7 ''hello'' None)
         (run plain_factory [CallStartBot (account_named ''alice'' ''hi'')] init)) 0 7"
proof -
  let ?s = "run plain_factory [CallStartBot (account_named ''alice'' ''hi'')] init"
  let ?m = "FriendMessage 0 7 ''hello'' None"
  have o: "objs ?s = [\<lparr>config = account_named ''alice'' ''hi'', bot = plain_factory (account_named ''alice'' ''hi'')\<rparr>]"
    by (simp add: demo_started object_prototype_keys_def)
  have z: "replies 0 7 (out ?s) = 0"
    by (simp add: init_def)
  have fresh: "\<not> seen ?s 0 7"
    using o by (simp add: seen_def)
  have run2: "run plain_factory [CallStartBot (account_named ''alice'' ''hi''), ?m, ?m] init
                = run plain_factory [?m] (step plain_factory ?m ?s)"
    by simp
  from at_most_one_auto_reply[of 0 7 plain_factory "[?m]" "step plain_factory ?m ?s" "''hello''" None]
       at_most_one_auto_reply[of 0 7 plain_factory "[]" ?s "''hello''" None]
       o z fresh
  have one: "replies 0 7 (out (step plain_factory ?m ?s)) = 1"
    and marked: "seen (step plain_factory ?m ?s) 0 7"
    and le: "replies 0 7 (out (run plain_factory [?m] (step plain_factory ?m ?s)))
               \<le> replies 0 7 (out (step plain_factory ?m ?s))
                  + (if seen (step plain_factory ?m ?s) 0 7 then 0 else 1)"
    by (simp_all del: step.simps run.simps)
  have ge: "replies 0 7 (out (step plain_factory ?m ?s))
              \<le> replies 0 7 (out (run plain_factory [?m] (step plain_factory ?m ?s)))"
    by (simp add: replies_step del: step.simps)
  from one marked le ge run2 show ?thesis
    by (simp del: run.simps step.simps)
qed

lemma replies_run_mono: "replies h p (out s) \<le> replies h p (out (run f as s))"
proof (induction as arbitrary: s)
  case Nil
  show ?case by simp
next
  case (Cons a as)
  have "replies h p (out s) \<le> replies h p (out (step f a s))"
    by (simp add: replies_step del: step.simps)
  also have "\<dots> \<le> replies h p (out (run f as (step f a s)))"
    by (rule Cons.IH)
  finally show ?case by simp
qed

text \<open>
  Claim C6: a stop followed by a start resets the reply tracking. With the factory
  of the spec, stopping a running account and starting it again registers a newly
  built bot, not the old one, whose \<open>messageReceived\<close> is empty; when auto-reply is
  configured, any peer that then writes to the new bot gets exactly one reply,
  whatever happens afterwards.
\<close>

theorem restart_resets_seen_peers:
  assumes "reachable (buildBot kp) s" and "bots s (username cfg) = Some h"
    and "replyMessage cfg \<noteq> []"
  shows "bots (stopBot (username cfg) x s) (username cfg) = None
       \<and> bots (startBot (buildBot kp) cfg (stopBot (username cfg) x s)) (username cfg)
           = Some (length (objs s))
       \<and> length (objs s) \<noteq> h
       \<and> messageReceived
            (bot (objs (startBot (buildBot kp) cfg (stopBot (username cfg) x s)) ! length (objs s))) = {}
       \<and> replies (length (objs s)) peer
            (out (run (buildBot kp) (FriendMessage (length (objs s)) peer msg y # as)
                   (startBot (buildBot kp) cfg (stopBot (username cfg) x s))))
           = replies (length (objs s)) peer
               (out (startBot (buildBot kp) cfg (stopBot (username cfg) x s))) + 1"
proof -
  let ?f = "buildBot kp"
  let ?s1 = "stopBot (username cfg) x s"
  let ?s2 = "startBot ?f cfg ?s1"
  let ?h = "length (objs s)"
  let ?s3 = "step ?f (FriendMessage ?h peer msg y) ?s2"
  from assms(1,2) have old: "h < length (objs s)" "username cfg \<notin> set object_prototype_keys"
    by (simp_all add: reachable_entry)
  have stopped: "bots ?s1 (username cfg) = None"
    by (simp add: stopBot_bots)
  with old have started: "bots ?s2 = (bots ?s1)(username cfg \<mapsto> ?h)"
    "objs ?s2 = objs s @ [\<lparr>config = cfg, bot = ?f cfg\<rparr>]"
    using startBot_registers[of ?s1 cfg ?f] by simp_all
  then have new: "?h < length (objs ?s2)" "bot (objs ?s2 ! ?h) = ?f cfg"
    by simp_all
  have empty: "messageReceived (bot (objs ?s2 ! ?h)) = {}"
    using new by (simp add: buildBot_def)
  have auto_on: "autoMessage (bot (objs ?s2 ! ?h)) \<noteq> []"
    using new assms(3) by (simp add: buildBot_def)
  have fresh: "\<not> seen ?s2 ?h peer"
    using empty by (simp add: seen_def)
  have first: "replies ?h peer (out ?s3) = replies ?h peer (out ?s2) + 1"
    using new(1) auto_on fresh by (simp add: replies_step del: step.simps)
  then have "seen ?s3 ?h peer"
    using replied_then_seen[of ?h peer ?f "FriendMessage ?h peer msg y" ?s2] by simp
  then have "replies ?h peer (out (run ?f as ?s3)) \<le> replies ?h peer (out ?s3)"
    using replies_run[of ?h peer ?f as ?s3] by simp
  moreover have "replies ?h peer (out ?s3) \<le> replies ?h peer (out (run ?f as ?s3))"
    by (rule replies_run_mono)
  ultimately have "replies ?h peer (out (run ?f (FriendMessage ?h peer msg y # as) ?s2))
                     = replies ?h peer (out ?s2) + 1"
    using first by (simp del: step.simps)
  with stopped started(1) old(1) empty show ?thesis
    by simp
qed

lemma reachable_plain_run: "reachable plain_factory (run plain_factory as init)"
  by (rule reachable_run) (rule reachable_init)

theorem restart_resets_seen_peers_witness:
  "seen (run plain_factory [CallStartBot (account_named ''alice'' ''hi''), FriendMessage 0 7 ''hello'' None] init) 0 7
   \<and> bots (startBot plain_factory (account_named ''alice'' ''hi'')
        (stopBot ''alice'' None
           (run plain_factory [CallStartBot (account_named ''alice'' ''hi''), FriendMessage 0 7 ''hello'' None] init)))
        ''alice'' = Some 1
   \<and> replies 1 7
        (out (run plain_factory [FriendMessage 1 7 ''hello'' None, FriendMessage 1 7 ''again'' None]
           (startBot plain_factory (account_named ''alice'' ''hi'')
              (stopBot ''alice'' None
                 (run plain_factory [CallStartBot (account_named ''alice'' ''hi''), FriendMessage 0 7 ''hello'' None] init)))))
       = 1"
proof -
  let ?c = "account_named ''alice'' ''hi''"
  let ?s = "run plain_factory [CallStartBot ?c, FriendMessage 0 7 ''hello'' None] init"
  have r: "reachable (buildBot (\<lambda>cfg. None)) ?s"
    using reachable_plain_run[of "[CallStartBot ?c, FriendMessage 0 7 ''hello'' None]"]
    by (simp only: plain_factory_def)
  have started: "bots (startBot plain_factory ?c init) ''alice'' = Some 0"
    "objs (startBot plain_factory ?c init) = [\<lparr>config = ?c, bot = plain_factory ?c\<rparr>]"
    by (simp_all add: demo_started object_prototype_keys_def)
  have b: "bots ?s (username ?c) = Some 0"
    using started by (simp add: deliver_def)
  have n: "length (objs ?s) = 1"
    using started by (simp add: deliver_def)
  have a: "replyMessage ?c \<noteq> []" by simp
  have before: "seen ?s 0 7"
    using started by (simp add: deliver_def seen_def messageReceived_on_friendMessage)
  have none: "replies 1 7 (out (startBot plain_factory ?c (stopBot ''alice'' None ?s))) = 0"
    using started by (simp add: deliver_def replies_on_friendMessage init_def)
  from restart_resets_seen_peers[OF r b a, of None 7 "''hello''" None "[FriendMessage 1 7 ''again'' None]"]
  show ?thesis
    using n before none
    by (simp only: plain_factory_def[symmetric] account_named_fields) simp
qed

subsection \<open>Steam Guard codes\<close>

text \<open>
  Claim C7: submitting a Steam Guard code succeeds only when the registry has a
  session for the identifier and its \<open>_waitingForGuard\<close> flag is set. Then the code
  is handed to the client and the submission is logged, and nothing else changes:
  the registry, the bots and the configuration stay as they are. In every other
  case the request is answered with status 400 and the state is unchanged.
\<close>

theorem submit_guard_needs_pending_request:
  "(\<forall>h. bots s name = Some h \<and> h < length (objs s) \<and> waitingForGuard (bot (objs s ! h)) \<longrightarrow>
        api_submit_guard name code s =
          (Json 200 ''Code submitted'',
           s\<lparr>out := out s @ [SubmitSteamGuardCode h code,
                               WriteLog (tag name @ ''Steam Guard code submitted.'')]\<rparr>))
   \<and> (\<not> (\<exists>h. bots s name = Some h \<and> h < length (objs s) \<and> waitingForGuard (bot (objs s ! h))) \<longrightarrow>
        api_submit_guard name code s =
          (Json 400 ''No Steam Guard request pending for this account or bot not running'', s))"
  by (auto simp add: api_submit_guard_def bots_get_def writeLog_def effect_def
        split: option.splits lookup.splits)

theorem submit_guard_needs_pending_request_witness:
  "api_submit_guard ''erin'' ''R2D2X''
      (run plain_factory [CallStartBot (account_named ''erin'' []), ClientSetsGuard 0 True] init)
     = (Json 200 ''Code submitted'',
        (run plain_factory [CallStartBot (account_named ''erin'' []), ClientSetsGuard 0 True] init)
          \<lparr>out := out (run plain_factory [CallStartBot (account_named ''erin'' []), ClientSetsGuard 0 True] init)
                    @ [SubmitSteamGuardCode 0 ''R2D2X'', WriteLog ''[erin] Steam Guard code submitted.'']\<rparr>)
   \<and> api_submit_guard ''erin'' ''R2D2X'' (run plain_factory [CallStartBot (account_named ''erin'' [])] init)
     = (Json 400 ''No Steam Guard request pending for this account or bot not running'',
        run plain_factory [CallStartBot (account_named ''erin'' [])] init)
   \<and> api_submit_guard ''erin'' ''R2D2X'' init
     = (Json 400 ''No Steam Guard request pending for this account or bot not running'', init)"
proof -
  let ?s1 = "run plain_factory [CallStartBot (account_named ''erin'' [])] init"
  let ?s2 = "run plain_factory [CallStartBot (account_named ''erin'' []), ClientSetsGuard 0 True] init"
  have started: "bots (startBot plain_factory (account_named ''erin'' []) init) ''erin'' = Some 0"
    "objs (startBot plain_factory (account_named ''erin'' []) init)
       = [\<lparr>config = account_named ''erin'' [], bot = plain_factory (account_named ''erin'' [])\<rparr>]"
    by (simp_all add: demo_started object_prototype_keys_def)
  have pending: "bots ?s2 ''erin'' = Some 0 \<and> 0 < length (objs ?s2) \<and> waitingForGuard (bot (objs ?s2 ! 0))"
    using started by (simp add: deliver_def client_sets_guard_def)
  have idle: "\<not> (\<exists>h. bots ?s1 ''erin'' = Some h \<and> h < length (objs ?s1) \<and> waitingForGuard (bot (objs ?s1 ! h)))"
    using started by simp
  have absent: "\<not> (\<exists>h. bots init ''erin'' = Some h \<and> h < length (objs init) \<and> waitingForGuard (bot (objs init ! h)))"
    by (simp add: init_def)
  from submit_guard_needs_pending_request[of ?s2 "''erin''" "''R2D2X''"] pending
  have a: "api_submit_guard ''erin'' ''R2D2X'' ?s2 =
             (Json 200 ''Code submitted'',
              ?s2\<lparr>out := out ?s2 @ [SubmitSteamGuardCode 0 ''R2D2X'',
                                     WriteLog (tag ''erin'' @ ''Steam Guard code submitted.'')]\<rparr>)"
    by blast
  from submit_guard_needs_pending_request[of ?s1 "''erin''" "''R2D2X''"] idle
  have b: "api_submit_guard ''erin'' ''R2D2X'' ?s1 =
             (Json 400 ''No Steam Guard request pending for this account or bot not running'', ?s1)"
    by blast
  from submit_guard_needs_pending_request[of init "''erin''" "''R2D2X''"] absent
  have c: "api_submit_guard ''erin'' ''R2D2X'' init =
             (Json 400 ''No Steam Guard request pending for this account or bot not running'', init)"
    by blast
  from a b c show ?thesis
    by (simp add: tag_def del: run.simps)
qed

subsection \<open>Where registry entries come from\<close>

text \<open>
  Claim C9 says that only a start call writes a registry entry. The
  \<open>loggedOn\<close> handler writes one too: after a disconnect has removed the entry
  of a started bot, a \<open>loggedOn\<close> event of that bot puts the same bot back.
\<close>

theorem loggedOn_reinserts_counterexample:
  "bots (run plain_factory
           [CallStartBot (account_named ''bob'' []),
            Disconnected 0 3 ''NoConnection''] init) ''bob'' = None
   \<and> bots (step plain_factory (LoggedOn 0)
        (run plain_factory
           [CallStartBot (account_named ''bob'' []),
            Disconnected 0 3 ''NoConnection''] init)) ''bob'' = Some 0"
proof -
  have started: "bots (startBot plain_factory (account_named ''bob'' []) init) = [''bob'' \<mapsto> 0]"
    "objs (startBot plain_factory (account_named ''bob'' []) init)
       = [\<lparr>config = account_named ''bob'' [], bot = plain_factory (account_named ''bob'' [])\<rparr>]"
    by (simp_all add: startBot_bots startBot_objs truthy_lookup init_def object_prototype_keys_def)
  then show ?thesis
    by (simp add: deliver_def on_disconnected_bots on_loggedOn_bots truthy_lookup
          object_prototype_keys_def)
qed

text \<open>
  Claim C9, as the code has it: a step writes a registry entry only when the lookup
  of the identifier was falsy before, so that no entry for it existed, and the step
  is a start (a call of \<open>startBot\<close> or a start request for the identifier), which
  registers the bot it has just built, or a \<open>loggedOn\<close> event of an already built
  bot, which registers that bot under the name of its configuration. No other
  action inserts.
\<close>

theorem registry_insert_sources:
  assumes "bots (step f a s) name = Some h" and "bots s name \<noteq> Some h"
  shows "\<not> truthy (bots_get s name) \<and> bots s name = None
       \<and> ((\<exists>cfg. a = CallStartBot cfg \<and> username cfg = name \<and> h = length (objs s))
          \<or> (a = PostStart name \<and> h = length (objs s))
          \<or> (a = LoggedOn h \<and> h < length (objs s) \<and> username (config (objs s ! h)) = name))"
proof (cases a)
  case (CallStartBot cfg)
  with assms show ?thesis
    by (auto simp add: startBot_bots truthy_lookup split: if_splits)
next
  case (CallStopBot n x)
  with assms show ?thesis
    by (auto simp add: stopBot_bots split: if_splits)
next
  case (LoadConfig r)
  with assms show ?thesis by simp
next
  case GetAccounts
  with assms show ?thesis by simp
next
  case (PostStart n)
  with assms show ?thesis
    by (auto simp add: api_start_def startBot_bots truthy_lookup find_Some_iff
          split: option.splits if_splits)
next
  case (PostStop n x)
  with assms show ?thesis
    by (auto simp add: api_stop_def stopBot_bots split: if_splits)
next
  case (PostSubmitGuard n code)
  with assms show ?thesis by simp
next
  case (PostAddAccount d)
  with assms show ?thesis by simp
next
  case (PutEditAccount n d x)
  with assms api_edit_account_bots[of n d x s] show ?thesis
    by (auto split: if_splits)
next
  case (DeleteAccount n x)
  with assms api_delete_account_bots[of n x s] show ?thesis
    by (auto split: if_splits)
next
  case (LoggedOn k)
  with assms show ?thesis
    by (auto simp add: deliver_def on_loggedOn_bots Let_def truthy_lookup split: if_splits)
next
  case (Error k e x)
  with assms show ?thesis
    by (auto simp add: deliver_def on_error_bots Let_def split: if_splits)
next
  case (FriendMessage k p m x)
  with assms show ?thesis
    by (auto simp add: deliver_def split: if_splits)
next
  case (SteamGuardRequested k)
  with assms show ?thesis
    by (auto simp add: deliver_def split: if_splits)
next
  case (Disconnected k r m)
  with assms show ?thesis
    by (auto simp add: deliver_def on_disconnected_bots split: if_splits)
next
  case (ClientSetsGuard k v)
  with assms show ?thesis
    by (auto simp add: deliver_def split: if_splits)
qed

theorem registry_insert_sources_witness:
  "bots (step plain_factory (CallStartBot (account_named ''bob'' [])) init) ''bob'' = Some 0
   \<and> bots init ''bob'' = None
   \<and> \<not> truthy (bots_get init ''bob'')
   \<and> 0 = length (objs init)"
proof -
  have a: "bots (step plain_factory (CallStartBot (account_named ''bob'' [])) init) ''bob'' = Some 0"
    by (simp add: demo_started object_prototype_keys_def)
  have b: "bots init ''bob'' \<noteq> Some 0"
    by (simp add: init_def)
  from registry_insert_sources[OF a b] a show ?thesis
    by auto
qed

subsection \<open>Editing and deleting an account\<close>

text \<open>
  Claim C10: when the bot of an account is in the registry, editing and deleting the
  account stop the bot before the configuration is saved, so that afterwards the
  registry has no entry for the account; editing keeps the user name of the stored
  account whatever the request body carries. The trace of either request shows the
  \<open>logOff\<close> call and the rest of \<open>stopBot\<close> before the \<open>saveConfig\<close>.
\<close>

theorem edit_and_delete_stop_running_bot:
  assumes "findIndex (\<lambda>acc. username acc = name) (configsArray s) = Some i"
    and "bots s name = Some h"
  shows "bots (snd (api_edit_account name d x s)) name = None
       \<and> configsArray (snd (api_edit_account name d x s)) =
           (configsArray s)[i := (spread (configsArray s ! i) d)\<lparr>username := name\<rparr>]
       \<and> username (configsArray (snd (api_edit_account name d x s)) ! i) = username (configsArray s ! i)
       \<and> emitted s (snd (api_edit_account name d x s)) =
           [WriteLog (tag name @ ''Account edited. Stopping the bot to apply changes. Please restart manually.''),
            WriteLog (tag name @ ''Stopping bot...''), LogOff h]
           @ (case x of None \<Rightarrow> [] | Some m \<Rightarrow> [WriteLog (tag name @ ''Error during logOff: '' @ m)])
           @ [EmitStatusUpdate, WriteLog (tag name @ ''Bot stopped.''),
              SaveConfig (configsArray (snd (api_edit_account name d x s))),
              WriteLog (tag name @ ''Account updated.''), EmitStatusUpdate]
       \<and> bots (snd (api_delete_account name x s)) name = None
       \<and> configsArray (snd (api_delete_account name x s)) =
           take i (configsArray s) @ drop (Suc i) (configsArray s)
       \<and> emitted s (snd (api_delete_account name x s)) =
           [WriteLog (tag name @ ''Stopping bot...''), LogOff h]
           @ (case x of None \<Rightarrow> [] | Some m \<Rightarrow> [WriteLog (tag name @ ''Error during logOff: '' @ m)])
           @ [EmitStatusUpdate, WriteLog (tag name @ ''Bot stopped.''),
              SaveConfig (configsArray (snd (api_delete_account name x s))),
              WriteLog (tag name @ ''Account deleted.''), EmitStatusUpdate]"
proof -
  have i: "i < length (configsArray s)" "username (configsArray s ! i) = name"
    using findIndex_Some[OF assms(1)] by simp_all
  let ?e = "s\<lparr>configsArray := (configsArray s)[i := (spread (configsArray s ! i) d)\<lparr>username := name\<rparr>]\<rparr>"
  let ?l = "writeLog (tag name @ ''Account edited. Stopping the bot to apply changes. Please restart manually.'') ?e"
  have own: "bots ?l name = Some h"
    using assms(2) by simp
  have edit: "snd (api_edit_account name d x s) =
                effect EmitStatusUpdate (writeLog (tag name @ ''Account updated.'')
                  (saveConfig (stopBot name x ?l)))"
    using assms i by (simp add: api_edit_account_def Let_def truthy_lookup)
  have del: "snd (api_delete_account name x s) =
               effect EmitStatusUpdate (writeLog (tag name @ ''Account deleted.'')
                 (saveConfig ((stopBot name x s)
                    \<lparr>configsArray := take i (configsArray s) @ drop (Suc i) (configsArray s)\<rparr>)))"
    using assms by (simp add: api_delete_account_def Let_def truthy_lookup)
  have out_edit: "out (snd (api_edit_account name d x s)) = out s @
           ([WriteLog (tag name @ ''Account edited. Stopping the bot to apply changes. Please restart manually.''),
            WriteLog (tag name @ ''Stopping bot...''), LogOff h]
           @ (case x of None \<Rightarrow> [] | Some m \<Rightarrow> [WriteLog (tag name @ ''Error during logOff: '' @ m)])
           @ [EmitStatusUpdate, WriteLog (tag name @ ''Bot stopped.''),
              SaveConfig (configsArray (snd (api_edit_account name d x s))),
              WriteLog (tag name @ ''Account updated.''), EmitStatusUpdate])"
    unfolding edit by (simp add: stopBot_own[OF own])
  have out_del: "out (snd (api_delete_account name x s)) = out s @
           ([WriteLog (tag name @ ''Stopping bot...''), LogOff h]
           @ (case x of None \<Rightarrow> [] | Some m \<Rightarrow> [WriteLog (tag name @ ''Error during logOff: '' @ m)])
           @ [EmitStatusUpdate, WriteLog (tag name @ ''Bot stopped.''),
              SaveConfig (configsArray (snd (api_delete_account name x s))),
              WriteLog (tag name @ ''Account deleted.''), EmitStatusUpdate])"
    unfolding del by (simp add: stopBot_own[OF assms(2)] saveConfig_def effect_def)
  have "bots (snd (api_edit_account name d x s)) name = None"
    unfolding edit by (simp add: stopBot_bots)
  moreover have "configsArray (snd (api_edit_account name d x s)) =
           (configsArray s)[i := (spread (configsArray s ! i) d)\<lparr>username := name\<rparr>]"
    unfolding edit by simp
  moreover have "bots (snd (api_delete_account name x s)) name = None"
    unfolding del by (simp add: stopBot_bots)
  moreover have "configsArray (snd (api_delete_account name x s)) =
           take i (configsArray s) @ drop (Suc i) (configsArray s)"
    unfolding del by simp
  ultimately show ?thesis
    using i emitted_append[OF out_edit] emitted_append[OF out_del] by simp
qed

theorem edit_and_delete_stop_running_bot_witness:
  "bots (snd (api_edit_account ''frank'' (body_named ''mallory'' ''new'') None
           (run plain_factory [PostAddAccount (body_named ''frank'' ''old''), PostStart ''frank''] init)))
     ''frank'' = None
   \<and> map username (configsArray (snd (api_edit_account ''frank'' (body_named ''mallory'' ''new'') None
           (run plain_factory [PostAddAccount (body_named ''frank'' ''old''), PostStart ''frank''] init))))
     = [''frank'']
   \<and> map password (configsArray (snd (api_edit_account ''frank'' (body_named ''mallory'' ''new'') None
           (run plain_factory [PostAddAccount (body_named ''frank'' ''old''), PostStart ''frank''] init))))
     = [''new'']
   \<and> bots (snd (api_delete_account ''frank'' None
           (run plain_factory [PostAddAccount (body_named ''frank'' ''old''), PostStart ''frank''] init)))
     ''frank'' = None
   \<and> configsArray (snd (api_delete_account ''frank'' None
           (run plain_factory [PostAddAccount (body_named ''frank'' ''old''), PostStart ''frank''] init)))
     = []
   \<and> bots (run plain_factory [PostAddAccount (body_named ''frank'' ''old''), PostStart ''frank''] init)
       ''frank'' = Some 0"
proof -
  let ?s = "run plain_factory [PostAddAccount (body_named ''frank'' ''old''), PostStart ''frank''] init"
  let ?a = "\<lparr>username = ''frank'', password = ''old'', sharedSecret = [], enableStatus = True,
             gamesAndStatus = [], replyMessage = [], receiveMessages = False, saveMessages = False\<rparr>"
  have added: "configsArray (snd (api_add_account (body_named ''frank'' ''old'') init)) = [?a]"
    "bots (snd (api_add_account (body_named ''frank'' ''old'') init)) = Map.empty"
    "objs (snd (api_add_account (body_named ''frank'' ''old'') init)) = []"
    by (simp_all add: api_add_account_def body_named_def falsy_def override_def Let_def init_def)
  have cfgs: "configsArray ?s = [?a]"
    using added by (simp add: api_start_def truthy_lookup object_prototype_keys_def startBot_def Let_def)
  have b: "bots ?s ''frank'' = Some 0"
    using added by (simp add: api_start_def truthy_lookup object_prototype_keys_def startBot_bots)
  have i: "findIndex (\<lambda>acc. username acc = ''frank'') (configsArray ?s) = Some 0"
    by (simp only: cfgs) simp
  let ?d = "body_named ''mallory'' ''new''"
  from edit_and_delete_stop_running_bot[OF i b, of ?d None]
  have stopped: "bots (snd (api_edit_account ''frank'' ?d None ?s)) ''frank'' = None"
    and edited: "configsArray (snd (api_edit_account ''frank'' ?d None ?s)) =
                   (configsArray ?s)[0 := (spread (configsArray ?s ! 0) ?d)\<lparr>username := ''frank''\<rparr>]"
    and deleted: "bots (snd (api_delete_account ''frank'' None ?s)) ''frank'' = None"
    and removed: "configsArray (snd (api_delete_account ''frank'' None ?s)) =
                    take 0 (configsArray ?s) @ drop (Suc 0) (configsArray ?s)"
    by blast+
  have "map username (configsArray (snd (api_edit_account ''frank'' ?d None ?s))) = [''frank'']"
    "map password (configsArray (snd (api_edit_account ''frank'' ?d None ?s))) = [''new'']"
    unfolding edited cfgs by (simp_all add: spread_def body_named_def override_def)
  moreover have "configsArray (snd (api_delete_account ''frank'' None ?s)) = []"
    unfolding removed cfgs by simp
  ultimately show ?thesis
    using stopped deleted b by (simp del: run.simps)
qed

end
